theory Spec2Isabelle
  imports Main
begin

section \<open>Python values, exceptions and string operations used by doc-images.py\<close>

text \<open>
  A Python \<open>str\<close> is modelled as a \<open>string\<close> (a list of 8-bit characters, that is the
  code points below 256), a \<open>bytes\<close> object as a list of 8-bit characters as well.
  Every exception the script can raise or catch is a constructor of \<open>error\<close>; a
  function that can raise returns \<open>error + 'a\<close>, with \<open>Inl\<close> for the exception.
\<close>

type_synonym bytes = "char list"

datatype error =
    UnidentifiedImageError
  | OSError
  | TypeError
  | ValueError
  | AssertionError
  | KeyError
  | IndexError
  | SyntaxError
  | FileNotFoundError
  | ReadError
  | JSONDecodeError
  | DecompressionBombError
  | OtherError string

text \<open>\<open>a + b\<close> on a \<open>str\<close> and a value that is a \<open>str\<close> or \<open>None\<close>.\<close>

fun str_add :: "string \<Rightarrow> string option \<Rightarrow> error + string" where
  "str_add a None = Inl TypeError"
| "str_add a (Some b) = Inr (a @ b)"

text \<open>\<open>d.get(k, default)\<close> on a dictionary literal, kept as an association list.\<close>

definition dict_get :: "('k \<times> 'v) list \<Rightarrow> 'k \<Rightarrow> 'v \<Rightarrow> 'v" where
  "dict_get d k dflt = (case map_of d k of None \<Rightarrow> dflt | Some v \<Rightarrow> v)"

text \<open>\<open>str.isspace\<close> on the code points below 256, and \<open>str.strip()\<close>.\<close>

definition py_isspace :: "char \<Rightarrow> bool" where
  "py_isspace c = (c \<in> set [CHR 0x09, CHR 0x0A, CHR 0x0B, CHR 0x0C, CHR 0x0D,
     CHR 0x1C, CHR 0x1D, CHR 0x1E, CHR 0x1F, CHR 0x20, CHR 0x85, CHR 0xA0])"

definition strip :: "string \<Rightarrow> string" where
  "strip s = rev (dropWhile py_isspace (rev (dropWhile py_isspace s)))"

text \<open>\<open>s.startswith(p)\<close>, \<open>s.endswith(p)\<close> and \<open>sub in s\<close>.\<close>

definition startswith :: "string \<Rightarrow> string \<Rightarrow> bool" where
  "startswith s p = (take (length p) s = p)"

definition endswith :: "string \<Rightarrow> string \<Rightarrow> bool" where
  "endswith s p = (length p \<le> length s \<and> drop (length s - length p) s = p)"

fun str_contains :: "string \<Rightarrow> string \<Rightarrow> bool" where
  "str_contains sub [] = (sub = [])"
| "str_contains sub (c # cs) = (startswith (c # cs) sub \<or> str_contains sub cs)"

text \<open>\<open>str.lower()\<close> on the code points below 256: the ASCII capitals and the Latin-1
  capitals (0xC0 to 0xDE without the multiplication sign 0xD7) move up by 32.\<close>

definition py_lower_char :: "char \<Rightarrow> char" where
  "py_lower_char c =
     (let n = (of_char c :: nat)
      in if (65 \<le> n \<and> n \<le> 90) \<or> (192 \<le> n \<and> n \<le> 222 \<and> n \<noteq> 215)
         then char_of (n + 32) else c)"

definition lower :: "string \<Rightarrow> string" where
  "lower s = map py_lower_char s"

text \<open>\<open>sep.join(parts)\<close>.\<close>

fun join :: "string \<Rightarrow> string list \<Rightarrow> string" where
  "join sep [] = []"
| "join sep [x] = x"
| "join sep (x # y # ys) = x @ sep @ join sep (y # ys)"

text \<open>
  \<open>s.rsplit(c, maxsplit=n)\<close> for a one-character separator. The worker reads the string
  from its right end (the reversed string is its last argument), collects the current
  piece in \<open>acc\<close>, and cuts at a separator while cuts are left.
\<close>

fun rsplit_from_right :: "char \<Rightarrow> nat \<Rightarrow> string \<Rightarrow> string \<Rightarrow> string list" where
  "rsplit_from_right c n acc [] = [acc]"
| "rsplit_from_right c n acc (x # xs) =
     (if x = c \<and> 0 < n then rsplit_from_right c (n - 1) [] xs @ [acc]
      else rsplit_from_right c n (x # acc) xs)"

definition rsplit :: "char \<Rightarrow> nat \<Rightarrow> string \<Rightarrow> string list" where
  "rsplit c n s = rsplit_from_right c n [] (rev s)"

text \<open>
  \<open>s.replace(old, new)\<close> for a non-empty \<open>old\<close>: every occurrence, found from the left
  and not overlapping, is replaced. (For an empty \<open>old\<close> Python inserts \<open>new\<close> around
  every character; the script never does that, and the model returns \<open>s\<close>.)
\<close>

function replace :: "string \<Rightarrow> string \<Rightarrow> string \<Rightarrow> string" where
  "replace old new [] = []"
| "replace old new (c # cs) =
     (if old \<noteq> [] \<and> startswith (c # cs) old
      then new @ replace old new (drop (length old) (c # cs))
      else c # replace old new cs)"
  by pat_completeness auto
termination
  by (relation "measure (\<lambda>(old, new, s). length s)") (auto simp: startswith_def)

section \<open>MimeSniffer: \<open>get_mime_type\<close>\<close>

text \<open>
  What the script reads of a decoded PIL image: its \<open>format\<close> attribute (\<open>None\<close> when
  PIL has none, as for every image made by \<open>convert\<close> or \<open>resize\<close>) and the outcome of
  \<open>getexif()\<close>, already passed through \<open>str\<close> tag by tag, or the exception it raises.
  The pixels matter only to the external hashing library, which gets the whole record.
\<close>

record image =
  img_format :: "string option"
  img_exif :: "error + (nat \<rightharpoonup> string)"
  img_pixels :: bytes

definition error_marker :: string where
  "error_marker = CHR 0xA1 # ''ERROR!''"

definition mime_table :: "(string option \<times> string) list" where
  "mime_table =
     [(Some ''JPEG'', ''image/jpeg''),
      (Some ''PNG'', ''image/png''),
      (Some ''WEBP'', ''image/webp''),
      (Some ''GIF'', ''image/gif''),
      (None, error_marker)]"

text \<open>
  Python evaluates both arguments of \<open>.get\<close> before the call, so the default
  \<open>"other/" + img.format\<close> is computed (and can raise) whatever the lookup finds.
\<close>

definition get_mime_type :: "image \<Rightarrow> error + string" where
  "get_mime_type img =
     (case str_add ''other/'' (img_format img) of
        Inl e \<Rightarrow> Inl e
      | Inr dflt \<Rightarrow> Inr (dict_get mime_table (img_format img) dflt))"

section \<open>The external libraries\<close>

text \<open>
  PIL, iscc, ftfy, urllib, json and the clock are not code of this repository: they
  are the fields of \<open>libs\<close>, and every theorem below holds for all of them.
\<close>

type_synonym meta = "string \<rightharpoonup> string"

datatype jval = JStr string | JInt int

type_synonym doc = "(string \<times> jval) list"

record libs =
  pil_open :: "bytes \<Rightarrow> error + image"
  convert_resize :: "image \<Rightarrow> error + image"
  iscc_meta_id :: "string \<Rightarrow> string \<Rightarrow> string list"
  iscc_content_id_image :: "image \<Rightarrow> string"
  iscc_data_id :: "bytes \<Rightarrow> string"
  iscc_instance_id :: "bytes \<Rightarrow> string \<times> string"
  fix_text :: "string \<Rightarrow> string"
  netloc :: "string \<Rightarrow> string"
  time_now :: int
  json_load :: "bytes \<Rightarrow> error + meta"
  json_dumps :: "doc \<Rightarrow> string"

section \<open>CopyrightExtractor: \<open>get_copyright\<close>\<close>

text \<open>The test of line 100 that makes the loop \<open>continue\<close>, on the stripped value.\<close>

definition too_small_or_placeholder :: "string \<Rightarrow> bool" where
  "too_small_or_placeholder v = (length v < 2 \<or> str_contains ''[None]'' v)"

fun copyright_loop :: "(string \<Rightarrow> string) \<Rightarrow> (nat \<rightharpoonup> string) \<Rightarrow> nat list \<Rightarrow> string option" where
  "copyright_loop fix exif_data [] = None"
| "copyright_loop fix exif_data (tag # tags) =
     (case exif_data tag of
        None \<Rightarrow> copyright_loop fix exif_data tags
      | Some raw \<Rightarrow>
          (let v = strip raw
           in if too_small_or_placeholder v then copyright_loop fix exif_data tags
              else Some (fix v)))"

definition copyright_tag :: nat where "copyright_tag = 33432"

definition artist_tag :: nat where "artist_tag = 315"

definition get_copyright :: "libs \<Rightarrow> image \<Rightarrow> error + string option" where
  "get_copyright L img =
     (case img_exif img of
        Inl e \<Rightarrow> (if e = SyntaxError then Inr None else Inl e)
      | Inr exif_data \<Rightarrow> Inr (copyright_loop (fix_text L) exif_data [copyright_tag, artist_tag]))"

section \<open>ImageProcessor: \<open>process_image\<close>\<close>

text \<open>
  \<open>a, _, _ = xs\<close>: unpacking into three targets raises \<open>ValueError\<close> unless the
  iterable yields exactly three items. Iterating a \<open>str\<close> yields its characters.
\<close>

fun unpack3 :: "'a list \<Rightarrow> error + ('a \<times> 'a \<times> 'a)" where
  "unpack3 [a, b, c] = Inr (a, b, c)"
| "unpack3 xs = Inl ValueError"

definition chars_of :: "string \<Rightarrow> string list" where
  "chars_of s = map (\<lambda>c. [c]) s"

text \<open>\<open>timestamp or int(time.time())\<close>: \<open>None\<close> and \<open>0\<close> are both false.\<close>

fun timestamp_or :: "int option \<Rightarrow> int \<Rightarrow> int" where
  "timestamp_or None now = now"
| "timestamp_or (Some t) now = (if t = 0 then now else t)"

text \<open>
  The \<open>try\<close> block of lines 39 to 47: open, sniff the mime type, convert and resize.
  Only \<open>UnidentifiedImageError\<close> and \<open>OSError\<close> are caught; \<open>None\<close> stands for the
  \<open>return {}\<close> of the handler.
\<close>

definition caught :: "error \<Rightarrow> bool" where
  "caught e = (e = UnidentifiedImageError \<or> e = OSError)"

definition handle_decode :: "error \<Rightarrow> error + (string \<times> image) option" where
  "handle_decode e = (if caught e then Inr None else Inl e)"

definition decode :: "libs \<Rightarrow> bytes \<Rightarrow> error + (string \<times> image) option" where
  "decode L data =
     (case pil_open L data of
        Inl e \<Rightarrow> handle_decode e
      | Inr img \<Rightarrow>
          (case get_mime_type img of
             Inl e \<Rightarrow> handle_decode e
           | Inr mime_type \<Rightarrow>
               (case convert_resize L img of
                  Inl e \<Rightarrow> handle_decode e
                | Inr img' \<Rightarrow> Inr (Some (mime_type, img')))))"

definition identify :: "libs \<Rightarrow> bytes \<Rightarrow> string \<Rightarrow> image \<Rightarrow> error + (string \<times> string)" where
  "identify L data title img =
     (case unpack3 (if title \<noteq> [] then iscc_meta_id L title [] else chars_of []) of
        Inl e \<Rightarrow> Inl e
      | Inr (meta_id, _, _) \<Rightarrow>
          (let content_id = iscc_content_id_image L img;
               data_id = iscc_data_id L data;
               (instance_id, checksum) = iscc_instance_id L data
           in Inr (join ''-'' [meta_id, content_id, data_id, instance_id], checksum)))"

definition process_image :: "libs \<Rightarrow> bytes \<Rightarrow> string \<Rightarrow> string \<Rightarrow> int option \<Rightarrow> error + doc" where
  "process_image L data title url timestamp =
     (case decode L data of
        Inl e \<Rightarrow> Inl e
      | Inr None \<Rightarrow> Inr []
      | Inr (Some (mime_type, img)) \<Rightarrow>
          (case identify L data title img of
             Inl e \<Rightarrow> Inl e
           | Inr (iscc, checksum) \<Rightarrow>
               (let d = [(''domain'', JStr (netloc L url)),
                         (''iscc'', JStr iscc),
                         (''timestamp'', JInt (timestamp_or timestamp (time_now L))),
                         (''bytes'', JInt (int (length data))),
                         (''checksum'', JStr checksum),
                         (''mime-type'', JStr mime_type)]
                in case get_copyright L img of
                     Inl e \<Rightarrow> Inl e
                   | Inr None \<Rightarrow> Inr d
                   | Inr (Some cmi) \<Rightarrow> Inr (d @ [(''copyright'', JStr cmi)]))))"

section \<open>ArchiveScanner: \<open>process_tar\<close>\<close>

text \<open>
  A member of a TAR archive, as the script reads it: its name, the bytes that
  \<open>extractfile(member).read()\<close> gives, and \<open>int(member.mtime)\<close>.
\<close>

record entry =
  ent_name :: string
  ent_data :: bytes
  ent_mtime :: int

text \<open>The loop's variables that outlive an iteration: \<open>cache\<close> and \<open>lines\<close>.\<close>

record scan_state =
  cache :: "string \<rightharpoonup> bytes"
  lines :: "string list"

definition member_name :: "entry \<Rightarrow> string" where
  "member_name m = lower (ent_name m)"

definition key_of :: "entry \<Rightarrow> string" where
  "key_of m = hd (rsplit CHR ''.'' 2 (member_name m))"

definition is_payload :: "entry \<Rightarrow> bool" where
  "is_payload m = endswith (member_name m) ''.jpg''"

definition is_sidecar :: "entry \<Rightarrow> bool" where
  "is_sidecar m = endswith (member_name m) ''.json''"

text \<open>Lines 153 to 162: the sidecar is parsed, the image processed, the record kept
  when it is not empty. \<open>st\<close> is the state after \<open>cache.pop(key)\<close>.\<close>

definition process_pair :: "libs \<Rightarrow> scan_state \<Rightarrow> entry \<Rightarrow> bytes \<Rightarrow> error + scan_state" where
  "process_pair L st m data =
     (case json_load L (ent_data m) of
        Inl e \<Rightarrow> Inl e
      | Inr meta \<Rightarrow>
          (let title = (case meta ''caption'' of None \<Rightarrow> [] | Some c \<Rightarrow> c)
           in case meta ''url'' of
                None \<Rightarrow> Inl KeyError
              | Some url \<Rightarrow>
                  (case process_image L data title url (Some (ent_mtime m)) of
                     Inl e \<Rightarrow> Inl e
                   | Inr d \<Rightarrow>
                       Inr (if 0 < length d
                            then st\<lparr>lines := lines st @ [json_dumps L d]\<rparr>
                            else st))))"

text \<open>One iteration of the loop of lines 135 to 162: two \<open>if\<close>s, one after the other.\<close>

definition scan_step :: "libs \<Rightarrow> scan_state \<Rightarrow> entry \<Rightarrow> error + scan_state" where
  "scan_step L st m =
     (let key = key_of m;
          st1 = (if is_payload m then st\<lparr>cache := (cache st)(key \<mapsto> ent_data m)\<rparr> else st)
      in if is_sidecar m
         then (case cache st1 key of
                 None \<Rightarrow> Inl AssertionError
               | Some data \<Rightarrow> process_pair L (st1\<lparr>cache := (cache st1)(key := None)\<rparr>) m data)
         else Inr st1)"

fun scan :: "libs \<Rightarrow> scan_state \<Rightarrow> entry list \<Rightarrow> error + scan_state" where
  "scan L st [] = Inr st"
| "scan L st (m # ms) =
     (case scan_step L st m of
        Inl e \<Rightarrow> Inl e
      | Inr st' \<Rightarrow> scan L st' ms)"

definition initial_state :: scan_state where
  "initial_state = \<lparr>cache = Map.empty, lines = []\<rparr>"

text \<open>
  The file system and the process the scanner runs in: a path holds a TAR archive or
  a text file; \<open>identity\<close> is \<open>multiprocessing.current_process()._identity\<close>;
  \<open>tar_opened\<close> logs every \<open>tarfile.open\<close>.
\<close>

datatype fnode = TarFile "entry list" | TextFile string

record world =
  files :: "string \<rightharpoonup> fnode"
  identity :: "nat list"
  tar_opened :: "string list"

definition isfile :: "world \<Rightarrow> string \<Rightarrow> bool" where
  "isfile w p = (files w p \<noteq> None)"

definition doc_path :: "string \<Rightarrow> string" where
  "doc_path filename = replace ''.tar'' ''_doc.jsonl'' filename"

definition newline :: string where
  "newline = [CHR 0x0A]"

definition tarfile_open :: "world \<Rightarrow> string \<Rightarrow> error + entry list" where
  "tarfile_open w p =
     (case files w p of
        None \<Rightarrow> Inl FileNotFoundError
      | Some (TextFile t) \<Rightarrow> Inl ReadError
      | Some (TarFile ms) \<Rightarrow> Inr ms)"

definition write_lines :: "world \<Rightarrow> string \<Rightarrow> string list \<Rightarrow> world" where
  "write_lines w p ls = w\<lparr>files := (files w)(p \<mapsto> TextFile (concat (map (\<lambda>l. l @ newline) ls)))\<rparr>"

definition process_tar :: "libs \<Rightarrow> world \<Rightarrow> string \<Rightarrow> error + (string list \<times> world)" where
  "process_tar L w filename =
     (if isfile w (doc_path filename) then Inr ([], w)
      else (case identity w of
              [] \<Rightarrow> Inl IndexError
            | pid # _ \<Rightarrow>
                (case tarfile_open w filename of
                   Inl e \<Rightarrow> Inl e
                 | Inr ms \<Rightarrow>
                     (let w1 = w\<lparr>tar_opened := tar_opened w @ [filename]\<rparr>
                      in case scan L initial_state ms of
                           Inl e \<Rightarrow> Inl e
                         | Inr st \<Rightarrow>
                             Inr (lines st, write_lines w1 (doc_path filename) (lines st))))))"

section \<open>ManifestAggregator: the end of \<open>main\<close>\<close>

text \<open>
  The manifest is written through a binary file object: a buffer and a position.
  \<open>write\<close> overwrites from the position on and extends the buffer where it ends
  (a position beyond the end is filled with zero bytes first); \<open>seek(off, SEEK_CUR)\<close>
  raises \<open>OSError\<close> on a negative target.
\<close>

record wfile =
  buf :: bytes
  pos :: nat

definition fopen_wb :: wfile where
  "fopen_wb = \<lparr>buf = [], pos = 0\<rparr>"

definition fwrite :: "wfile \<Rightarrow> bytes \<Rightarrow> wfile" where
  "fwrite f s =
     \<lparr>buf = take (pos f) (buf f) @ replicate (pos f - length (buf f)) (CHR 0x00) @ s
              @ drop (pos f + length s) (buf f),
      pos = pos f + length s\<rparr>"

definition fseek_cur :: "wfile \<Rightarrow> int \<Rightarrow> error + wfile" where
  "fseek_cur f off =
     (if int (pos f) + off < 0 then Inl OSError
      else Inr (f\<lparr>pos := nat (int (pos f) + off)\<rparr>))"

definition manifest_line :: "string \<Rightarrow> bytes" where
  "manifest_line ln = ''  '' @ ln @ '','' @ newline"

definition write_results :: "wfile \<Rightarrow> string list list \<Rightarrow> wfile" where
  "write_results f results =
     fold (\<lambda>lns g. fold (\<lambda>ln h. fwrite h (manifest_line ln)) lns g) results f"

definition write_manifest :: "string list list \<Rightarrow> error + bytes" where
  "write_manifest results =
     (let f1 = fwrite fopen_wb (''['' @ newline);
          f2 = write_results f1 results
      in case fseek_cur f2 (- 2) of
           Inl e \<Rightarrow> Inl e
         | Inr f3 \<Rightarrow> Inr (buf (fwrite f3 (newline @ '']''))))"

text \<open>
  What every JSON array text must satisfy: after optional white space (space, tab,
  line feed, carriage return) its first character is the opening bracket.
\<close>

definition json_ws :: "char \<Rightarrow> bool" where
  "json_ws c = (c \<in> set [CHR 0x20, CHR 0x09, CHR 0x0A, CHR 0x0D])"

definition opens_json_array :: "bytes \<Rightarrow> bool" where
  "opens_json_array s =
     (case dropWhile json_ws s of [] \<Rightarrow> False | c # _ \<Rightarrow> c = CHR ''['')"

section \<open>The pairing buffer, as the archive determines it\<close>

text \<open>
  A payload with key \<open>k\<close> and bytes \<open>d\<close> is pending after the members \<open>ms\<close> when it is
  one of them and no later member with the same key is a payload (which would replace
  it) or a sidecar (which would consume it).
\<close>

definition pending :: "entry list \<Rightarrow> string \<Rightarrow> bytes \<Rightarrow> bool" where
  "pending ms k d =
     (\<exists>pre p post. ms = pre @ p # post \<and> is_payload p \<and> key_of p = k \<and> ent_data p = d \<and>
        (\<forall>e \<in> set post. key_of e = k \<longrightarrow> \<not> is_payload e \<and> \<not> is_sidecar e))"

section \<open>Concrete inputs\<close>

text \<open>
  One possible behaviour of the external libraries, to run the model on concrete
  inputs: a payload that starts with the JPEG marker decodes, any other payload is
  unidentified; a decoded image with no pixel data fails to load when it is converted;
  a non-empty sidecar parses to its own bytes as URL with the caption \<open>Sunset\<close>.
\<close>

definition jpeg_magic :: bytes where
  "jpeg_magic = [CHR 0xFF, CHR 0xD8]"

definition sample_open :: "bytes \<Rightarrow> error + image" where
  "sample_open d =
     (if startswith d jpeg_magic
      then Inr \<lparr>img_format = Some ''JPEG'', img_exif = Inr Map.empty,
                img_pixels = drop 2 d\<rparr>
      else Inl UnidentifiedImageError)"

definition sample_convert :: "image \<Rightarrow> error + image" where
  "sample_convert i = (if img_pixels i = [] then Inl OSError else Inr (i\<lparr>img_format := None\<rparr>))"

definition sample_load :: "bytes \<Rightarrow> error + meta" where
  "sample_load b =
     (if b = [] then Inl JSONDecodeError
      else Inr [''url'' \<mapsto> b, ''caption'' \<mapsto> ''Sunset''])"

fun sample_dumps_val :: "jval \<Rightarrow> string" where
  "sample_dumps_val (JStr s) = s"
| "sample_dumps_val (JInt i) = (if i = 0 then ''0'' else ''N'')"

definition sample_dumps :: "doc \<Rightarrow> string" where
  "sample_dumps d = ''{'' @ join '', '' (map (\<lambda>(k, v). k @ '': '' @ sample_dumps_val v) d) @ ''}''"

definition sample_libs :: libs where
  "sample_libs =
     \<lparr>pil_open = sample_open,
      convert_resize = sample_convert,
      iscc_meta_id = (\<lambda>title extra. [''CC'' @ title, title, extra]),
      iscc_content_id_image = (\<lambda>i. ''CY''),
      iscc_data_id = (\<lambda>d. ''CD''),
      iscc_instance_id = (\<lambda>d. (''CR'', ''00'')),
      fix_text = (\<lambda>s. s),
      netloc = (\<lambda>u. ''example.com''),
      time_now = 1700000000,
      json_load = sample_load,
      json_dumps = sample_dumps\<rparr>"

text \<open>
  A second behaviour of PIL: a payload that starts with the PNG marker declares more
  pixels than PIL accepts, and \<open>PIL.Image.open\<close> raises \<open>DecompressionBombError\<close>, an
  exception that is neither an \<open>UnidentifiedImageError\<close> nor an \<open>OSError\<close>.
\<close>

definition png_magic :: bytes where
  "png_magic = [CHR 0x89, CHR ''P'', CHR ''N'', CHR ''G'']"

definition bomb_open :: "bytes \<Rightarrow> error + image" where
  "bomb_open d = (if startswith d png_magic then Inl DecompressionBombError else sample_open d)"

definition bomb_libs :: libs where
  "bomb_libs = sample_libs\<lparr>pil_open := bomb_open\<rparr>"

definition png_bomb :: bytes where
  "png_bomb = png_magic @ ''huge''"

definition bomb_payload :: entry where
  "bomb_payload = \<lparr>ent_name = ''0001.jpg'', ent_data = png_bomb, ent_mtime = 1600000000\<rparr>"

definition sample_jpeg :: bytes where
  "sample_jpeg = jpeg_magic @ ''pixels''"

definition sample_payload :: entry where
  "sample_payload = \<lparr>ent_name = ''0001.JPG'', ent_data = sample_jpeg, ent_mtime = 1600000000\<rparr>"

definition sample_sidecar :: entry where
  "sample_sidecar = \<lparr>ent_name = ''0001.json'', ent_data = ''https://example.com/a.jpg'',
     ent_mtime = 1600000000\<rparr>"

definition sample_world :: world where
  "sample_world =
     \<lparr>files = [''/data/0.tar'' \<mapsto> TarFile [sample_payload, sample_sidecar]],
      identity = [1],
      tar_opened = []\<rparr>"


definition sample_line :: string where
  "sample_line = ''{domain: example.com, iscc: CCSunset-CY-CD-CR, timestamp: N, bytes: N, checksum: 00, mime-type: image/jpeg}''"

definition sample_world_after :: world where
  "sample_world_after =
     \<lparr>files = [''/data/0.tar'' \<mapsto> TarFile [sample_payload, sample_sidecar],
               ''/data/0_doc.jsonl'' \<mapsto> TextFile (sample_line @ newline)],
      identity = [1],
      tar_opened = [''/data/0.tar'']\<rparr>"

section \<open>Facts about the model\<close>

lemma get_mime_type_no_format:
  "img_format img = None \<Longrightarrow> get_mime_type img = Inl TypeError"
  by (simp add: get_mime_type_def)

lemma timestamp_or_zero: "timestamp_or (Some 0) now = timestamp_or None now"
  by simp

lemma decode_ok:
  assumes "pil_open L data = Inr img" "img_format img = Some f" "convert_resize L img = Inr img'"
  shows "\<exists>mime. decode L data = Inr (Some (mime, img'))"
  using assms by (simp add: decode_def get_mime_type_def)

lemma identify_empty_title: "identify L data [] img = Inl ValueError"
  by (simp add: identify_def chars_of_def)

lemma decode_undecodable:
  assumes "(\<exists>e. pil_open L data = Inl e \<and> caught e) \<or>
           (\<exists>img f e. pil_open L data = Inr img \<and> img_format img = Some f \<and>
                       convert_resize L img = Inl e \<and> caught e)"
  shows "decode L data = Inr None"
  using assms by (auto simp: decode_def handle_decode_def get_mime_type_def)

lemma process_image_no_record:
  "decode L data = Inr None \<Longrightarrow> process_image L data title url timestamp = Inr []"
  by (simp add: process_image_def)

lemma last_endswith: "endswith s p \<Longrightarrow> p \<noteq> [] \<Longrightarrow> last s = last p"
  unfolding endswith_def
  by (metis last_drop length_0_conv diff_less length_greater_0_conv linorder_not_less)

lemma not_payload_and_sidecar: "is_sidecar m \<Longrightarrow> \<not> is_payload m"
  unfolding is_sidecar_def is_payload_def
  using last_endswith [of "member_name m" "''.jpg''"] last_endswith [of "member_name m" "''.json''"]
  by auto

lemma scan_step_sidecar:
  assumes "is_sidecar m"
  shows "scan_step L st m =
     (case cache st (key_of m) of
        None \<Rightarrow> Inl AssertionError
      | Some data \<Rightarrow> process_pair L (st\<lparr>cache := (cache st)(key_of m := None)\<rparr>) m data)"
  using assms not_payload_and_sidecar [OF assms] by (simp add: scan_step_def Let_def)

lemma sample_payload_key: "key_of sample_payload = ''0001''"
  by code_simp

lemma sample_sidecar_key: "key_of sample_sidecar = ''0001''"
  by code_simp

lemma sample_payload_is_payload: "is_payload sample_payload"
  by code_simp

lemma sample_sidecar_is_sidecar: "is_sidecar sample_sidecar"
  by code_simp

lemma sample_open_jpeg:
  "pil_open sample_libs sample_jpeg
     = Inr \<lparr>img_format = Some ''JPEG'', img_exif = Inr Map.empty, img_pixels = ''pixels''\<rparr>"
  by (simp add: sample_libs_def sample_open_def sample_jpeg_def jpeg_magic_def startswith_def)

lemma sample_convert_jpeg:
  "convert_resize sample_libs
       \<lparr>img_format = Some ''JPEG'', img_exif = Inr Map.empty, img_pixels = ''pixels''\<rparr>
     = Inr \<lparr>img_format = None, img_exif = Inr Map.empty, img_pixels = ''pixels''\<rparr>"
  by (simp add: sample_libs_def sample_convert_def)

lemma scan_step_payload:
  assumes "is_payload m"
  shows "scan_step L st m = Inr (st\<lparr>cache := (cache st)(key_of m \<mapsto> ent_data m)\<rparr>)"
  using assms not_payload_and_sidecar [of m] by (auto simp: scan_step_def Let_def)

lemma scan_step_other:
  assumes "\<not> is_payload m" "\<not> is_sidecar m"
  shows "scan_step L st m = Inr st"
  using assms by (simp add: scan_step_def Let_def)

lemma scan_append:
  "scan L st (xs @ ys) = (case scan L st xs of Inl e \<Rightarrow> Inl e | Inr st' \<Rightarrow> scan L st' ys)"
  by (induction xs arbitrary: st) (auto split: sum.splits)

lemma process_pair_cache: "process_pair L st m data = Inr st' \<Longrightarrow> cache st' = cache st"
  by (auto simp: process_pair_def Let_def split: sum.splits option.splits if_splits)

lemma scan_step_cache:
  assumes "scan_step L st m = Inr st'"
  shows "cache st' k =
     (if key_of m = k
      then (if is_payload m then Some (ent_data m)
            else if is_sidecar m then None else cache st k)
      else cache st k)"
proof (cases "is_sidecar m")
  case True
  with assms obtain data where "cache st (key_of m) = Some data"
    and "process_pair L (st\<lparr>cache := (cache st)(key_of m := None)\<rparr>) m data = Inr st'"
    by (auto simp: scan_step_sidecar split: option.splits)
  from process_pair_cache [OF this(2)] True not_payload_and_sidecar [OF True]
  show ?thesis by simp
next
  case False
  then show ?thesis
    using assms by (cases "is_payload m") (auto simp: scan_step_payload scan_step_other)
qed

lemma snoc_eq_split:
  "ms @ [e] = pre @ p # post \<longleftrightarrow>
     (post = [] \<and> pre = ms \<and> p = e) \<or> (\<exists>post'. post = post' @ [e] \<and> ms = pre @ p # post')"
  by (cases post rule: rev_cases) auto

lemma pending_Nil: "\<not> pending [] k d"
  by (simp add: pending_def)

lemma pending_snoc:
  "pending (ms @ [e]) k d =
     (if key_of e = k
      then (if is_payload e then ent_data e = d
            else if is_sidecar e then False else pending ms k d)
      else pending ms k d)"
proof -
  have split: "pending (ms @ [e]) k d \<longleftrightarrow>
      (is_payload e \<and> key_of e = k \<and> ent_data e = d) \<or>
      (pending ms k d \<and> (key_of e = k \<longrightarrow> \<not> is_payload e \<and> \<not> is_sidecar e))"
  proof
    assume "pending (ms @ [e]) k d"
    then obtain pre p post where eq: "ms @ [e] = pre @ p # post"
      and p: "is_payload p" "key_of p = k" "ent_data p = d"
      and post: "\<forall>x \<in> set post. key_of x = k \<longrightarrow> \<not> is_payload x \<and> \<not> is_sidecar x"
      unfolding pending_def by blast
    from eq consider "post = []" "pre = ms" "p = e"
      | post' where "post = post' @ [e]" "ms = pre @ p # post'"
      unfolding snoc_eq_split by blast
    then show "(is_payload e \<and> key_of e = k \<and> ent_data e = d) \<or>
      (pending ms k d \<and> (key_of e = k \<longrightarrow> \<not> is_payload e \<and> \<not> is_sidecar e))"
    proof cases
      case 1
      with p show ?thesis by simp
    next
      case 2
      with p post have "pending ms k d"
        unfolding pending_def by auto
      moreover from 2 post have "key_of e = k \<longrightarrow> \<not> is_payload e \<and> \<not> is_sidecar e"
        by simp
      ultimately show ?thesis by simp
    qed
  next
    assume "(is_payload e \<and> key_of e = k \<and> ent_data e = d) \<or>
      (pending ms k d \<and> (key_of e = k \<longrightarrow> \<not> is_payload e \<and> \<not> is_sidecar e))"
    then show "pending (ms @ [e]) k d"
    proof
      assume "is_payload e \<and> key_of e = k \<and> ent_data e = d"
      then have "ms @ [e] = ms @ e # [] \<and> is_payload e \<and> key_of e = k \<and> ent_data e = d \<and>
          (\<forall>x \<in> set []. key_of x = k \<longrightarrow> \<not> is_payload x \<and> \<not> is_sidecar x)"
        by simp
      then show ?thesis unfolding pending_def by blast
    next
      assume r: "pending ms k d \<and> (key_of e = k \<longrightarrow> \<not> is_payload e \<and> \<not> is_sidecar e)"
      then obtain pre p post where "ms = pre @ p # post"
        and "is_payload p" "key_of p = k" "ent_data p = d"
        and "\<forall>x \<in> set post. key_of x = k \<longrightarrow> \<not> is_payload x \<and> \<not> is_sidecar x"
        unfolding pending_def by blast
      with r have "ms @ [e] = pre @ p # (post @ [e]) \<and> is_payload p \<and> key_of p = k \<and>
          ent_data p = d \<and>
          (\<forall>x \<in> set (post @ [e]). key_of x = k \<longrightarrow> \<not> is_payload x \<and> \<not> is_sidecar x)"
        by auto
      then show ?thesis unfolding pending_def by blast
    qed
  qed
  show ?thesis
    unfolding split using not_payload_and_sidecar [of e] by auto
qed

lemma scan_cache_pending:
  "scan L initial_state ms = Inr st \<Longrightarrow> cache st k = Some d \<longleftrightarrow> pending ms k d"
proof (induction ms arbitrary: st rule: rev_induct)
  case Nil
  then show ?case by (auto simp: initial_state_def pending_Nil)
next
  case (snoc e ms)
  from snoc.prems obtain st1 where st1: "scan L initial_state ms = Inr st1"
    and step: "scan_step L st1 e = Inr st"
    by (auto simp: scan_append split: sum.splits)
  show ?case
    unfolding scan_step_cache [OF step] pending_snoc using snoc.IH [OF st1] by auto
qed

lemma not_pending_after_sidecar:
  assumes "is_sidecar s" "key_of s = k" "\<forall>e \<in> set mid. key_of e = k \<longrightarrow> \<not> is_payload e"
  shows "\<not> pending (pre @ [s] @ mid) k d"
  using assms(3)
proof (induction mid rule: rev_induct)
  case Nil
  then show ?case using assms(1,2) not_payload_and_sidecar [OF assms(1)] by (simp add: pending_snoc)
next
  case (snoc e mid)
  then have "\<not> pending (pre @ [s] @ mid) k d" by simp
  moreover have "key_of e = k \<longrightarrow> \<not> is_payload e" using snoc.prems by simp
  ultimately show ?case
    using pending_snoc [of "pre @ [s] @ mid" e k d] by auto
qed

lemma not_pending_without_payload:
  assumes "\<forall>e \<in> set ms. key_of e = k \<longrightarrow> \<not> is_payload e"
  shows "\<not> pending ms k d"
  using assms by (auto simp: pending_def)

lemma scan_unpaired_sidecar:
  assumes "scan L initial_state ms = Inr st" "\<forall>d. \<not> pending ms (key_of s) d" "is_sidecar s"
  shows "scan L initial_state (ms @ s # rest) = Inl AssertionError"
proof -
  have "cache st (key_of s) = None"
    using scan_cache_pending [OF assms(1), of "key_of s"] assms(2) by (cases "cache st (key_of s)") auto
  then show ?thesis
    by (simp add: scan_append assms(1) scan_step_sidecar [OF assms(3)])
qed







lemma scan_pair:
  assumes "is_payload p" "is_sidecar s" "key_of s = key_of p"
  shows "scan L st (p # s # rest) =
     (case process_pair L (st\<lparr>cache := (cache st)(key_of p := None)\<rparr>) s (ent_data p) of
        Inl e \<Rightarrow> Inl e
      | Inr st' \<Rightarrow> scan L st' rest)"
  using assms by (simp add: scan_step_payload scan_step_sidecar)

lemma process_pair_ok:
  assumes "json_load L (ent_data s) = Inr meta" "meta ''url'' = Some u"
    "process_image L data (case meta ''caption'' of None \<Rightarrow> [] | Some c \<Rightarrow> c) u
       (Some (ent_mtime s)) = Inr d"
  shows "process_pair L st s data =
     Inr (st\<lparr>lines := lines st @ (if d = [] then [] else [json_dumps L d])\<rparr>)"
  using assms by (simp add: process_pair_def)

lemma sample_process_image:
  "process_image sample_libs sample_jpeg ''Sunset'' ''https://example.com/a.jpg'' (Some 1600000000)
     = Inr [(''domain'', JStr ''example.com''),
            (''iscc'', JStr ''CCSunset-CY-CD-CR''),
            (''timestamp'', JInt 1600000000),
            (''bytes'', JInt 8),
            (''checksum'', JStr ''00''),
            (''mime-type'', JStr ''image/jpeg'')]"
  by (simp add: process_image_def decode_def identify_def get_copyright_def get_mime_type_def
      dict_get_def mime_table_def sample_libs_def sample_open_def sample_convert_def
      sample_jpeg_def jpeg_magic_def startswith_def copyright_tag_def artist_tag_def)

lemma sample_dumps_record:
  "json_dumps sample_libs
     [(''domain'', JStr ''example.com''),
      (''iscc'', JStr ''CCSunset-CY-CD-CR''),
      (''timestamp'', JInt 1600000000),
      (''bytes'', JInt 8),
      (''checksum'', JStr ''00''),
      (''mime-type'', JStr ''image/jpeg'')] = sample_line"
  by (simp add: sample_libs_def sample_dumps_def sample_line_def)

lemma sample_json_load:
  "json_load sample_libs (ent_data sample_sidecar)
     = Inr [''url'' \<mapsto> ''https://example.com/a.jpg'', ''caption'' \<mapsto> ''Sunset'']"
  by (simp add: sample_libs_def sample_load_def sample_sidecar_def)

lemma sample_scan_payload:
  "scan sample_libs initial_state [sample_payload] =
     Inr \<lparr>cache = [''0001'' \<mapsto> sample_jpeg], lines = []\<rparr>"
  by (simp add: scan_step_payload [OF sample_payload_is_payload] sample_payload_key
      initial_state_def) (simp add: sample_payload_def)

lemma sample_scan_pair:
  "scan sample_libs initial_state [sample_payload, sample_sidecar] =
     Inr \<lparr>cache = Map.empty, lines = [sample_line]\<rparr>"
proof -
  have k: "key_of sample_sidecar = key_of sample_payload"
    by (simp add: sample_sidecar_key sample_payload_key)
  have url: "[''url'' \<mapsto> ''https://example.com/a.jpg'', ''caption'' \<mapsto> ''Sunset''] ''url''
      = Some ''https://example.com/a.jpg''"
    by simp
  have img: "process_image sample_libs (ent_data sample_payload)
      (case [''url'' \<mapsto> ''https://example.com/a.jpg'', ''caption'' \<mapsto> ''Sunset''] ''caption'' of
         None \<Rightarrow> [] | Some c \<Rightarrow> c)
      ''https://example.com/a.jpg'' (Some (ent_mtime sample_sidecar))
      = Inr [(''domain'', JStr ''example.com''),
            (''iscc'', JStr ''CCSunset-CY-CD-CR''),
            (''timestamp'', JInt 1600000000),
            (''bytes'', JInt 8),
            (''checksum'', JStr ''00''),
            (''mime-type'', JStr ''image/jpeg'')]"
    using sample_process_image by (simp add: sample_payload_def sample_sidecar_def)
  show ?thesis
    unfolding scan_pair [OF sample_payload_is_payload sample_sidecar_is_sidecar k]
      process_pair_ok [OF sample_json_load url img]
    by (simp add: initial_state_def sample_dumps_record)
qed

lemma process_tar_skips:
  "isfile w (doc_path filename) \<Longrightarrow> process_tar L w filename = Inr ([], w)"
  by (simp add: process_tar_def)

lemma isfile_write_lines: "isfile (write_lines w p ls) p"
  by (simp add: isfile_def write_lines_def)

lemma sample_doc_path: "doc_path ''/data/0.tar'' = ''/data/0_doc.jsonl''"
  by (simp add: doc_path_def startswith_def)

lemma sample_process_tar:
  "process_tar sample_libs sample_world ''/data/0.tar'' = Inr ([sample_line], sample_world_after)"
  unfolding process_tar_def sample_doc_path
  by (simp add: isfile_def sample_world_def tarfile_open_def sample_scan_pair write_lines_def
      sample_world_after_def del: scan.simps)

lemma rsplit_from_right_nonempty: "rsplit_from_right c n acc xs \<noteq> []"
  by (induction c n acc xs rule: rsplit_from_right.induct) auto

lemma rsplit_nonempty: "rsplit c n s \<noteq> []"
  by (simp add: rsplit_def rsplit_from_right_nonempty)

lemma fwrite_at_end:
  "pos f = length (buf f) \<Longrightarrow> fwrite f s = \<lparr>buf = buf f @ s, pos = length (buf f) + length s\<rparr>"
  by (simp add: fwrite_def)

lemma write_lines_at_end:
  "pos f = length (buf f) \<Longrightarrow>
   fold (\<lambda>ln h. fwrite h (manifest_line ln)) lns f =
     \<lparr>buf = buf f @ concat (map manifest_line lns),
      pos = length (buf f @ concat (map manifest_line lns))\<rparr>"
proof (induction lns arbitrary: f)
  case Nil
  then show ?case by simp
next
  case (Cons ln lns)
  have "pos (fwrite f (manifest_line ln)) = length (buf (fwrite f (manifest_line ln)))"
    using Cons.prems by (simp add: fwrite_at_end)
  from Cons.IH [OF this] show ?case
    using Cons.prems by (simp add: fwrite_at_end)
qed

lemma write_results_at_end:
  "pos f = length (buf f) \<Longrightarrow>
   write_results f results =
     \<lparr>buf = buf f @ concat (map manifest_line (concat results)),
      pos = length (buf f @ concat (map manifest_line (concat results)))\<rparr>"
proof (induction results arbitrary: f)
  case Nil
  then show ?case by (simp add: write_results_def)
next
  case (Cons lns results)
  let ?g = "fold (\<lambda>ln h. fwrite h (manifest_line ln)) lns f"
  have g: "?g = \<lparr>buf = buf f @ concat (map manifest_line lns),
      pos = length (buf f @ concat (map manifest_line lns))\<rparr>"
    by (rule write_lines_at_end [OF Cons.prems])
  then have "pos ?g = length (buf ?g)" by simp
  from Cons.IH [OF this] show ?case
    unfolding write_results_def by (simp add: g)
qed

lemma manifest_lines_join:
  "concat (map manifest_line (l # ls)) =
     join ('','' @ newline) (map (\<lambda>ln. ''  '' @ ln) (l # ls)) @ '','' @ newline"
  by (induction ls arbitrary: l) (simp_all add: manifest_line_def)

lemma write_manifest_buffer:
  "write_manifest results =
     (let b = ''['' @ newline @ concat (map manifest_line (concat results))
      in Inr (take (length b - 2) b @ newline @ '']''))"
proof -
  have 1: "pos (fwrite fopen_wb (''['' @ newline)) = length (buf (fwrite fopen_wb (''['' @ newline)))"
    by (simp add: fwrite_def fopen_wb_def)
  show ?thesis
    unfolding write_manifest_def Let_def write_results_at_end [OF 1]
    by (simp add: fseek_cur_def fwrite_def fopen_wb_def newline_def)
qed

lemma write_manifest_some_records:
  assumes "concat results = l # ls"
  shows "write_manifest results =
     Inr (''['' @ newline @ join ('','' @ newline) (map (\<lambda>ln. ''  '' @ ln) (l # ls))
          @ newline @ '']'')"
proof -
  define J where "J = join ('','' @ newline) (map (\<lambda>ln. ''  '' @ ln) (l # ls))"
  have "concat (map manifest_line (l # ls)) = J @ '','' @ newline"
    unfolding J_def by (rule manifest_lines_join)
  then have "write_manifest results = Inr (''['' @ newline @ J @ newline @ '']'')"
    unfolding write_manifest_buffer assms by (simp add: newline_def Let_def)
  then show ?thesis
    unfolding J_def .
qed

lemma timestamp_kept:
  assumes "t \<noteq> 0" "process_image L data title url (Some t) = Inr d" "d \<noteq> []"
  shows "map_of d ''timestamp'' = Some (JInt t)"
  using assms
  by (auto simp: process_image_def Let_def split: sum.splits option.splits prod.splits)


lemma startswith_shorter:
  assumes "old \<noteq> []" "xs \<noteq> []" "startswith (xs @ old) old"
  shows "startswith (xs @ butlast old) old"
proof -
  have "xs @ old = (xs @ butlast old) @ [last old]"
    using assms(1) by simp
  moreover have "length old \<le> length (xs @ butlast old)"
    using assms(1,2) by (cases xs) simp_all
  ultimately have "take (length old) (xs @ old) = take (length old) (xs @ butlast old)"
    by (metis take_all_iff take_append order_refl append_Nil2 diff_is_0_eq take_0)
  with assms(3) show ?thesis
    by (simp add: startswith_def)
qed

lemma replace_self: "old \<noteq> [] \<Longrightarrow> replace old new old = new"
  by (cases old) (simp_all add: startswith_def)

lemma replace_only_suffix:
  assumes "old \<noteq> []" "\<not> str_contains old (stem @ butlast old)"
  shows "replace old new (stem @ old) = stem @ new"
  using assms(2)
proof (induction stem)
  case Nil
  then show ?case by (simp add: replace_self [OF assms(1)])
next
  case (Cons x xs)
  from Cons.prems have no: "\<not> startswith ((x # xs) @ butlast old) old"
    and rest: "\<not> str_contains old (xs @ butlast old)"
    by simp_all
  from no startswith_shorter [OF assms(1), of "x # xs"]
  have "\<not> startswith ((x # xs) @ old) old" by blast
  then show ?case
    using Cons.IH [OF rest] by simp
qed

lemma doc_path_suffix_only:
  "\<not> str_contains ''.tar'' (stem @ ''.ta'') \<Longrightarrow> doc_path (stem @ ''.tar'') = stem @ ''_doc.jsonl''"
  unfolding doc_path_def
  using replace_only_suffix [of "''.tar''" stem "''_doc.jsonl''"] by simp

lemma decode_error_propagates:
  assumes "pil_open L data = Inl e" "\<not> caught e"
  shows "process_image L data title url timestamp = Inl e"
  using assms by (simp add: process_image_def decode_def handle_decode_def)

lemma process_pair_error_propagates:
  assumes "json_load L (ent_data m) = Inr meta" "meta ''url'' = Some u"
    "pil_open L data = Inl e" "\<not> caught e"
  shows "process_pair L st m data = Inl e"
  using assms by (simp add: process_pair_def decode_error_propagates)

lemma bomb_payload_is_payload: "is_payload bomb_payload"
  by code_simp

lemma bomb_payload_key: "key_of bomb_payload = ''0001''"
  by code_simp

lemma bomb_open_png: "pil_open bomb_libs png_bomb = Inl DecompressionBombError"
  by (simp add: bomb_libs_def bomb_open_def png_bomb_def png_magic_def startswith_def)

lemma bomb_json_load:
  "json_load bomb_libs (ent_data sample_sidecar)
     = Inr [''url'' \<mapsto> ''https://example.com/a.jpg'', ''caption'' \<mapsto> ''Sunset'']"
  by (simp add: bomb_libs_def sample_libs_def sample_load_def sample_sidecar_def)

section \<open>The claims\<close>

text \<open>
  Claim C1 says that a decodable payload with an empty title is processed without an
  exception and gets an empty placeholder as meta component. The code does not do
  that: on line 49 the empty-title branch yields the empty string, whose unpacking
  into three targets raises \<open>ValueError\<close>. For every payload that PIL opens and
  converts, \<open>process_image\<close> with the empty title raises \<open>ValueError\<close>.
\<close>

theorem empty_title_raises:
  assumes "pil_open L data = Inr img" "img_format img = Some f" "convert_resize L img = Inr img'"
  shows "process_image L data [] url timestamp = Inl ValueError"
proof -
  from decode_ok [OF assms] obtain mime where "decode L data = Inr (Some (mime, img'))" ..
  then show ?thesis
    by (simp add: process_image_def identify_empty_title)
qed

theorem empty_title_raises_witness:
  "process_image sample_libs sample_jpeg [] ''https://example.com/a.jpg'' (Some 1600000000)
     = Inl ValueError"
proof -
  have fmt: "img_format \<lparr>img_format = Some ''JPEG'', img_exif = Inr Map.empty,
      img_pixels = ''pixels''\<rparr> = Some ''JPEG''"
    by simp
  show ?thesis
    by (rule empty_title_raises [OF sample_open_jpeg fmt sample_convert_jpeg])
qed

text \<open>
  Claim C2 says that the aggregated manifest is a valid JSON array of all records,
  also when no archive yields a record. The code does not do that in the empty case:
  after the opening bracket and line feed nothing is written, the seek by -2 goes back
  to the start of the file, and the closing text overwrites the opening bracket. The
  file then holds a line feed and a closing bracket, which opens no JSON array.
\<close>

theorem write_manifest_no_records:
  assumes "concat results = []"
  shows "write_manifest results = Inr (newline @ '']'') \<and> \<not> opens_json_array (newline @ '']'')"
  unfolding write_manifest_buffer assms
  by (simp add: newline_def Let_def opens_json_array_def json_ws_def)

theorem write_manifest_no_records_witness:
  "write_manifest [[], [], []] = Inr (newline @ '']'') \<and> \<not> opens_json_array (newline @ '']'')"
  using write_manifest_no_records [of "[[], [], []]"] by simp

text \<open>
  Claim C3, as amended: for every image with a detected format, \<open>get_mime_type\<close>
  returns \<open>image/jpeg\<close> for JPEG, \<open>image/png\<close> for PNG, \<open>image/webp\<close> for WEBP,
  \<open>image/gif\<close> for GIF, and for any other format string \<open>other/\<close> followed by the
  format string unchanged.
\<close>

theorem get_mime_type_detected:
  "img_format img = Some f \<Longrightarrow>
   get_mime_type img =
     Inr (if f = ''JPEG'' then ''image/jpeg''
          else if f = ''PNG'' then ''image/png''
          else if f = ''WEBP'' then ''image/webp''
          else if f = ''GIF'' then ''image/gif''
          else ''other/'' @ f)"
  by (simp add: get_mime_type_def dict_get_def mime_table_def)

theorem get_mime_type_detected_witness:
  "get_mime_type \<lparr>img_format = Some ''TIFF'', img_exif = Inr Map.empty, img_pixels = []\<rparr>
     = Inr ''other/TIFF''"
  using get_mime_type_detected
    [of "\<lparr>img_format = Some ''TIFF'', img_exif = Inr Map.empty, img_pixels = []\<rparr>" "''TIFF''"]
  by simp

text \<open>
  Claim C3 as stated fails: the format BMP is not mapped to the lower-cased
  \<open>other/bmp\<close>.
\<close>

theorem get_mime_type_not_lowercased:
  "get_mime_type \<lparr>img_format = Some ''BMP'', img_exif = Inr Map.empty, img_pixels = []\<rparr>
     \<noteq> Inr ''other/bmp''"
  by (simp add: get_mime_type_def dict_get_def mime_table_def)

text \<open>
  Claim C4 says that a timestamp argument that is present, the value 0 included, is
  the record's timestamp. The code does not do that for 0: \<open>timestamp or ...\<close> takes
  0 for absent, so a call with timestamp 0 gives what a call without timestamp gives,
  and the record holds the current time.
\<close>

theorem timestamp_zero_is_absent:
  "process_image L data title url (Some 0) = process_image L data title url None \<and>
   process_image sample_libs sample_jpeg ''Sunset'' ''https://example.com/a.jpg'' (Some 0)
     = Inr [(''domain'', JStr ''example.com''),
            (''iscc'', JStr ''CCSunset-CY-CD-CR''),
            (''timestamp'', JInt 1700000000),
            (''bytes'', JInt 8),
            (''checksum'', JStr ''00''),
            (''mime-type'', JStr ''image/jpeg'')]"
proof
  show "process_image L data title url (Some 0) = process_image L data title url None"
    unfolding process_image_def timestamp_or_zero ..
next
  show "process_image sample_libs sample_jpeg ''Sunset'' ''https://example.com/a.jpg'' (Some 0)
     = Inr [(''domain'', JStr ''example.com''),
            (''iscc'', JStr ''CCSunset-CY-CD-CR''),
            (''timestamp'', JInt 1700000000),
            (''bytes'', JInt 8),
            (''checksum'', JStr ''00''),
            (''mime-type'', JStr ''image/jpeg'')]"
    by (simp add: process_image_def decode_def identify_def get_copyright_def get_mime_type_def
        dict_get_def mime_table_def sample_libs_def sample_open_def sample_convert_def
        sample_jpeg_def jpeg_magic_def startswith_def copyright_tag_def artist_tag_def)
qed

text \<open>
  Claim C5, as amended: when the decoding of the payload fails with an
  \<open>UnidentifiedImageError\<close> or an \<open>OSError\<close> (the two classes that line 46 catches),
  raised by PIL on opening it or on loading it for the conversion, \<open>process_image\<close>
  returns the empty dictionary and raises nothing; and the scan of the archive goes on
  after the sidecar of such a payload, with no line added.
\<close>

theorem undecodable_payload_is_skipped:
  assumes "(\<exists>e. pil_open L data = Inl e \<and> caught e) \<or>
           (\<exists>img f e. pil_open L data = Inr img \<and> img_format img = Some f \<and>
                       convert_resize L img = Inl e \<and> caught e)"
  shows "process_image L data title url timestamp = Inr [] \<and>
         (is_sidecar m \<and> cache st (key_of m) = Some data \<and>
          json_load L (ent_data m) = Inr meta \<and> meta ''url'' = Some u \<longrightarrow>
          scan L st (m # ms) = scan L (st\<lparr>cache := (cache st)(key_of m := None)\<rparr>) ms)"
proof -
  have none: "\<And>t u ts. process_image L data t u ts = Inr []"
    by (rule process_image_no_record [OF decode_undecodable [OF assms]])
  show ?thesis
    by (auto simp: none scan_step_sidecar process_pair_def)
qed

theorem undecodable_payload_is_skipped_witness:
  "process_image sample_libs ''not an image'' ''Sunset'' ''https://example.com/a.jpg'' (Some 1600000000)
     = Inr [] \<and>
   scan sample_libs \<lparr>cache = [''0001'' \<mapsto> ''not an image''], lines = []\<rparr> [sample_sidecar]
     = Inr \<lparr>cache = ([''0001'' \<mapsto> ''not an image''])(''0001'' := None), lines = []\<rparr> \<and>
   process_image sample_libs jpeg_magic ''Sunset'' ''https://example.com/a.jpg'' (Some 1600000000)
     = Inr []"
proof -
  have unidentified: "(\<exists>e. pil_open sample_libs ''not an image'' = Inl e \<and> caught e) \<or>
      (\<exists>img f e. pil_open sample_libs ''not an image'' = Inr img \<and> img_format img = Some f \<and>
         convert_resize sample_libs img = Inl e \<and> caught e)"
    by (simp add: sample_libs_def sample_open_def jpeg_magic_def startswith_def caught_def)
  have truncated: "(\<exists>e. pil_open sample_libs jpeg_magic = Inl e \<and> caught e) \<or>
      (\<exists>img f e. pil_open sample_libs jpeg_magic = Inr img \<and> img_format img = Some f \<and>
         convert_resize sample_libs img = Inl e \<and> caught e)"
    by (simp add: sample_libs_def sample_open_def sample_convert_def jpeg_magic_def
        startswith_def caught_def)
  have sidecar: "json_load sample_libs (ent_data sample_sidecar)
      = Inr [''url'' \<mapsto> ''https://example.com/a.jpg'', ''caption'' \<mapsto> ''Sunset'']"
    by (simp add: sample_libs_def sample_load_def sample_sidecar_def)
  show ?thesis
    using undecodable_payload_is_skipped [OF unidentified,
        of "''Sunset''" "''https://example.com/a.jpg''" "Some 1600000000" sample_sidecar
           "\<lparr>cache = [''0001'' \<mapsto> ''not an image''], lines = []\<rparr>"
           "[''url'' \<mapsto> ''https://example.com/a.jpg'', ''caption'' \<mapsto> ''Sunset'']"
           "''https://example.com/a.jpg''" "[]"]
      undecodable_payload_is_skipped [OF truncated,
        of "''Sunset''" "''https://example.com/a.jpg''" "Some 1600000000"]
    by (simp add: sidecar sample_sidecar_is_sidecar sample_sidecar_key)
qed

text \<open>
  Claim C5 as stated fails: a payload that PIL refuses to decode with an exception of
  another class, here \<open>DecompressionBombError\<close>, makes \<open>process_image\<close> raise, and the
  scan of the archive that holds it stops with this exception.
\<close>

theorem undecodable_payload_can_raise:
  "process_image bomb_libs png_bomb ''Sunset'' ''https://example.com/a.jpg'' (Some 1600000000)
     = Inl DecompressionBombError \<and>
   scan bomb_libs initial_state [bomb_payload, sample_sidecar, sample_payload, sample_sidecar]
     = Inl DecompressionBombError"
proof -
  have nc: "\<not> caught DecompressionBombError"
    by (simp add: caught_def)
  have k: "key_of sample_sidecar = key_of bomb_payload"
    by (simp add: sample_sidecar_key bomb_payload_key)
  have url: "[''url'' \<mapsto> ''https://example.com/a.jpg'', ''caption'' \<mapsto> ''Sunset''] ''url''
      = Some ''https://example.com/a.jpg''"
    by simp
  have data: "pil_open bomb_libs (ent_data bomb_payload) = Inl DecompressionBombError"
    using bomb_open_png by (simp add: bomb_payload_def)
  have "process_image bomb_libs png_bomb ''Sunset'' ''https://example.com/a.jpg''
      (Some 1600000000) = Inl DecompressionBombError"
    by (rule decode_error_propagates [OF bomb_open_png nc])
  moreover have "scan bomb_libs initial_state
      [bomb_payload, sample_sidecar, sample_payload, sample_sidecar] = Inl DecompressionBombError"
    unfolding scan_pair [OF bomb_payload_is_payload sample_sidecar_is_sidecar k]
      process_pair_error_propagates [OF bomb_json_load url data nc]
    by simp
  ultimately show ?thesis by simp
qed

text \<open>
  Claim C8 says that the output path is the archive path with its final \<open>.tar\<close>
  replaced and the rest unchanged. The code does not do that: \<open>str.replace\<close> replaces
  every occurrence of \<open>.tar\<close>, so a directory name is rewritten as well.
\<close>

theorem doc_path_replaces_every_occurrence:
  "doc_path ''/data/set.tar.d/0.tar'' = ''/data/set_doc.jsonl.d/0_doc.jsonl'' \<and>
   doc_path ''/data/set.tar.d/0.tar'' \<noteq> ''/data/set.tar.d/0_doc.jsonl''"
  by (simp add: doc_path_def startswith_def)




text \<open>
  Claim C6: let a payload entry and a sidecar entry share their pairing key, after
  members that were scanned without error and hold no payload with this key. With the
  sidecar first the scan raises the pairing error (the \<open>assert\<close> of line 150). With the
  payload first the assertion passes and the scan goes on with what the processing of
  the pair gives; when the sidecar parses, holds a URL and the image is processed, the
  two entries are scanned without error and the record, if not empty, is one more line.
\<close>

theorem pairing_order:
  assumes "is_payload p" "is_sidecar s" "key_of s = key_of p"
    and "scan L initial_state pre = Inr st"
    and "\<forall>e \<in> set pre. key_of e = key_of p \<longrightarrow> \<not> is_payload e"
  shows "scan L initial_state (pre @ s # p # rest) = Inl AssertionError \<and>
     scan L initial_state (pre @ p # s # rest) =
       (case process_pair L (st\<lparr>cache := (cache st)(key_of p := None)\<rparr>) s (ent_data p) of
          Inl e \<Rightarrow> Inl e
        | Inr st' \<Rightarrow> scan L st' rest) \<and>
     (json_load L (ent_data s) = Inr meta \<and> meta ''url'' = Some u \<and>
      process_image L (ent_data p) (case meta ''caption'' of None \<Rightarrow> [] | Some c \<Rightarrow> c) u
        (Some (ent_mtime s)) = Inr d
      \<longrightarrow> scan L initial_state (pre @ [p, s]) =
            Inr (st\<lparr>cache := (cache st)(key_of p := None),
                    lines := lines st @ (if d = [] then [] else [json_dumps L d])\<rparr>))"
proof -
  have "\<forall>d. \<not> pending pre (key_of s) d"
    using not_pending_without_payload [of pre "key_of s"] assms(3,5) by simp
  then have first: "scan L initial_state (pre @ s # p # rest) = Inl AssertionError"
    by (rule scan_unpaired_sidecar [OF assms(4) _ assms(2)])
  have second: "scan L initial_state (pre @ p # s # rest) =
       (case process_pair L (st\<lparr>cache := (cache st)(key_of p := None)\<rparr>) s (ent_data p) of
          Inl e \<Rightarrow> Inl e
        | Inr st' \<Rightarrow> scan L st' rest)" for rest
    by (simp only: scan_append assms(4) sum.case scan_pair [OF assms(1,2,3)])
  have third: "scan L initial_state (pre @ [p, s]) =
            Inr (st\<lparr>cache := (cache st)(key_of p := None),
                    lines := lines st @ (if d = [] then [] else [json_dumps L d])\<rparr>)"
    if "json_load L (ent_data s) = Inr meta" "meta ''url'' = Some u"
      "process_image L (ent_data p) (case meta ''caption'' of None \<Rightarrow> [] | Some c \<Rightarrow> c) u
        (Some (ent_mtime s)) = Inr d"
    unfolding second [of "[]"] process_pair_ok [OF that] by simp
  from first second third show ?thesis by blast
qed

theorem pairing_order_witness:
  "scan sample_libs initial_state [sample_sidecar, sample_payload] = Inl AssertionError \<and>
   scan sample_libs initial_state [sample_payload, sample_sidecar] =
     Inr \<lparr>cache = Map.empty, lines = [sample_line]\<rparr>"
proof -
  let ?meta = "[''url'' \<mapsto> ''https://example.com/a.jpg'', ''caption'' \<mapsto> ''Sunset'']"
  let ?d = "[(''domain'', JStr ''example.com''),
            (''iscc'', JStr ''CCSunset-CY-CD-CR''),
            (''timestamp'', JInt 1600000000),
            (''bytes'', JInt 8),
            (''checksum'', JStr ''00''),
            (''mime-type'', JStr ''image/jpeg'')]"
  have k: "key_of sample_sidecar = key_of sample_payload"
    by (simp add: sample_sidecar_key sample_payload_key)
  have pre: "scan sample_libs initial_state [] = Inr initial_state"
    by simp
  have none: "\<forall>e \<in> set []. key_of e = key_of sample_payload \<longrightarrow> \<not> is_payload e"
    by simp
  have url: "?meta ''url'' = Some ''https://example.com/a.jpg''"
    by simp
  have img: "process_image sample_libs (ent_data sample_payload)
      (case ?meta ''caption'' of None \<Rightarrow> [] | Some c \<Rightarrow> c)
      ''https://example.com/a.jpg'' (Some (ent_mtime sample_sidecar)) = Inr ?d"
    using sample_process_image by (simp add: sample_payload_def sample_sidecar_def)
  note t = pairing_order [OF sample_payload_is_payload sample_sidecar_is_sidecar k pre none,
        of "[]" ?meta "''https://example.com/a.jpg''" ?d]
  from t have a: "scan sample_libs initial_state ([] @ sample_sidecar # sample_payload # [])
      = Inl AssertionError"
    by (rule conjunct1)
  from t sample_json_load url img
  have b: "scan sample_libs initial_state ([] @ [sample_payload, sample_sidecar]) =
      Inr (initial_state\<lparr>cache := (cache initial_state)(key_of sample_payload := None),
             lines := lines initial_state @ (if ?d = [] then [] else [json_dumps sample_libs ?d])\<rparr>)"
    by blast
  from a b show ?thesis
    by (simp add: initial_state_def sample_dumps_record del: scan.simps)
qed


text \<open>
  Claim C10: after a scan without error the buffer holds exactly the pending payloads
  (\<open>pending\<close>: the payloads with no later payload or sidecar of their key); a sidecar
  that is processed removes its key from the buffer; and a second sidecar of a key,
  with no payload of this key between the first sidecar and it, raises the pairing
  error.
\<close>

theorem buffer_holds_pending_payloads:
  assumes "scan L initial_state ms = Inr st"
  shows "(cache st k = Some d \<longleftrightarrow> pending ms k d) \<and>
     (is_sidecar s \<and> scan_step L st s = Inr st' \<longrightarrow> cache st' = (cache st)(key_of s := None)) \<and>
     (ms = pre @ [s1] @ mid \<and> is_sidecar s1 \<and> is_sidecar s2 \<and> key_of s2 = key_of s1 \<and>
      (\<forall>e \<in> set mid. key_of e = key_of s1 \<longrightarrow> \<not> is_payload e)
      \<longrightarrow> scan L initial_state (ms @ s2 # rest) = Inl AssertionError)"
proof -
  have inv: "cache st k = Some d \<longleftrightarrow> pending ms k d"
    by (rule scan_cache_pending [OF assms])
  have pop: "cache st' = (cache st)(key_of s := None)"
    if "is_sidecar s" "scan_step L st s = Inr st'"
  proof -
    from that obtain data
      where "process_pair L (st\<lparr>cache := (cache st)(key_of s := None)\<rparr>) s data = Inr st'"
      by (auto simp: scan_step_sidecar split: option.splits)
    from process_pair_cache [OF this] show ?thesis by simp
  qed
  have again: "scan L initial_state (ms @ s2 # rest) = Inl AssertionError"
    if "ms = pre @ [s1] @ mid" "is_sidecar s1" "is_sidecar s2" "key_of s2 = key_of s1"
      "\<forall>e \<in> set mid. key_of e = key_of s1 \<longrightarrow> \<not> is_payload e"
  proof -
    have "\<forall>d. \<not> pending ms (key_of s2) d"
      using not_pending_after_sidecar [of s1 "key_of s2" mid pre] that by simp
    then show ?thesis
      by (rule scan_unpaired_sidecar [OF assms _ that(3)])
  qed
  from inv pop again show ?thesis by blast
qed

theorem buffer_holds_pending_payloads_witness:
  "pending [sample_payload] ''0001'' sample_jpeg \<and>
   scan sample_libs initial_state [sample_payload, sample_sidecar, sample_sidecar]
     = Inl AssertionError"
proof -
  note one = buffer_holds_pending_payloads [OF sample_scan_payload, of "''0001''" sample_jpeg]
  then have a: "pending [sample_payload] ''0001'' sample_jpeg"
    by simp
  have mid: "\<forall>e \<in> set []. key_of e = key_of sample_sidecar \<longrightarrow> \<not> is_payload e"
    by simp
  have ms: "[sample_payload, sample_sidecar] = [sample_payload] @ [sample_sidecar] @ []"
    by simp
  note two = buffer_holds_pending_payloads [OF sample_scan_pair,
      of _ _ _ _ "[sample_payload]" sample_sidecar "[]" sample_sidecar "[]"]
  with ms mid sample_sidecar_is_sidecar
  have "scan sample_libs initial_state ([sample_payload, sample_sidecar] @ sample_sidecar # [])
      = Inl AssertionError"
    by blast
  with a show ?thesis
    by (simp del: scan.simps)
qed

text \<open>
  Claim C7: when a scan of an archive has returned, its output file exists, and a
  second scan in the world the first one left returns the empty list and leaves this
  world as it is: no archive is opened, no entry is read, no file is written.
\<close>

theorem rerun_is_skipped:
  assumes "process_tar L w filename = Inr (ls, w')"
  shows "isfile w' (doc_path filename) \<and> process_tar L w' filename = Inr ([], w')"
proof -
  have "isfile w' (doc_path filename)"
  proof (cases "isfile w (doc_path filename)")
    case True
    with assms show ?thesis by (simp add: process_tar_def)
  next
    case False
    with assms show ?thesis
      by (auto simp: process_tar_def Let_def isfile_write_lines
          split: list.splits sum.splits)
  qed
  then show ?thesis
    by (simp add: process_tar_skips)
qed

theorem rerun_is_skipped_witness:
  "process_tar sample_libs sample_world ''/data/0.tar'' = Inr ([sample_line], sample_world_after) \<and>
   isfile sample_world_after (doc_path ''/data/0.tar'') \<and>
   process_tar sample_libs sample_world_after ''/data/0.tar'' = Inr ([], sample_world_after)"
  using rerun_is_skipped [OF sample_process_tar] sample_process_tar by simp

end
